theory Spec2Isabelle
  imports Complex_Main
begin

section \<open>Data model of the fund data server\<close>

text \<open>
  The server (\<^verbatim>\<open>src/scripts/fund_server.py\<close>) asks three upstream providers about a
  fund, merges what they return into one result dictionary and keeps that dictionary in an
  in-memory cache for \<^verbatim>\<open>CACHE_TTL\<close> seconds.

  Conventions of the embedding:
  \<^item> a Python dictionary with a fixed set of keys is a record, an \<^verbatim>\<open>Optional[Dict]\<close> is an
    \<open>option\<close> of that record;
  \<^item> a Python float is the real number it stands for (every finite double is a real; NaN
    and the infinities are outside the model). Copying a float and comparing two floats are
    exact. The one arithmetic operation of the code, the subtraction of two clock readings
    in \<^verbatim>\<open>get_cached\<close>, rounds its result to a double: it is not the subtraction of the
    reals, and the model takes it from outside (\<open>float_sub\<close> below);
  \<^item> strings are \<open>string\<close>, a character standing for a code point below 256;
  \<^item> the clock (\<^verbatim>\<open>time.time()\<close>, \<^verbatim>\<open>datetime.now()\<close>) and the network are inputs: every
    reading of the clock and every upstream reply is an explicit argument.
\<close>

subsection \<open>Upstream replies and the three adapters\<close>

text \<open>
  What an HTTP request produces, as far as an adapter can tell: \<open>Raised\<close> stands for any
  exception inside the adapter's \<^verbatim>\<open>try\<close> block (\<^verbatim>\<open>requests.get\<close> timing out,
  \<^verbatim>\<open>json.loads\<close> or \<^verbatim>\<open>float\<close> rejecting the text), \<open>Parsed\<close> carries the decoded JSON.
\<close>

datatype 'a reply = Raised string | Parsed 'a

text \<open>
  A field of a decoded JSON object is \<open>None\<close> when the key is missing; for a numeric field
  \<open>None\<close> also stands for a JSON \<^verbatim>\<open>null\<close>, an empty string or a zero, the values that
  \<^verbatim>\<open>x or 0\<close> replaces by \<open>0\<close>. \<open>get_or\<close> is \<^verbatim>\<open>data.get(key, default)\<close>,
  \<open>float_or_0\<close> is \<^verbatim>\<open>float(data.get(key, 0) or 0)\<close>.
\<close>

definition get_or :: "'a option \<Rightarrow> 'a \<Rightarrow> 'a" where
  "get_or field dflt = (case field of None \<Rightarrow> dflt | Some v \<Rightarrow> v)"

definition float_or_0 :: "real option \<Rightarrow> real" where
  "float_or_0 field = (case field of None \<Rightarrow> 0 | Some v \<Rightarrow> v)"

text \<open>The JSON object inside \<^verbatim>\<open>jsonpgz(...)\<close>, the reply of the real-time estimate provider.\<close>

record tiantian_json =
  j_fundcode :: "string option"
  j_name :: "string option"
  j_dwjz :: "real option"
  j_gsz :: "real option"
  j_gszzl :: "real option"
  j_gztime :: "string option"

text \<open>The dictionary \<^verbatim>\<open>fetch_tiantian_estimate\<close> returns.\<close>

record estimate_dict =
  e_code :: string
  e_name :: string
  e_dwjz :: real
  e_gsz :: real
  e_gszzl :: real
  e_gztime :: string

text \<open>
  \<^verbatim>\<open>fetch_tiantian_estimate\<close> (lines 55-73). The reply is \<open>Parsed None\<close> when the regular
  expression \<^verbatim>\<open>jsonpgz\((.*)\)\<close> does not match the response text.
\<close>

definition fetch_tiantian_estimate :: "string \<Rightarrow> tiantian_json option reply \<Rightarrow> estimate_dict option" where
  "fetch_tiantian_estimate code r =
     (case r of
        Raised e \<Rightarrow> None
      | Parsed None \<Rightarrow> None
      | Parsed (Some d) \<Rightarrow>
          Some \<lparr> e_code = get_or (j_fundcode d) code,
                 e_name = get_or (j_name d) '''',
                 e_dwjz = float_or_0 (j_dwjz d),
                 e_gsz = float_or_0 (j_gsz d),
                 e_gszzl = float_or_0 (j_gszzl d),
                 e_gztime = get_or (j_gztime d) '''' \<rparr>)"

text \<open>One entry of \<^verbatim>\<open>Data.LSJZList\<close>, the reply of the published-value provider.\<close>

record lsjz_json =
  j_DWJZ :: "real option"
  j_LJJZ :: "real option"
  j_JZZZL :: "real option"
  j_FSRQ :: "string option"

text \<open>The dictionary \<^verbatim>\<open>fetch_eastmoney_nav\<close> returns.\<close>

record nav_dict =
  n_dwjz :: real
  n_ljjz :: real
  n_jzzzl :: real
  n_fsrq :: string

text \<open>
  \<^verbatim>\<open>fetch_eastmoney_nav\<close> (lines 76-101). The reply is \<open>Parsed None\<close> when
  \<^verbatim>\<open>jQuery\((.*)\)\<close> does not match, \<open>Parsed (Some l)\<close> carries
  \<^verbatim>\<open>data.get('Data', {}).get('LSJZList')\<close>, an empty (or missing) list being falsy.
\<close>

definition fetch_eastmoney_nav :: "string \<Rightarrow> lsjz_json list option reply \<Rightarrow> nav_dict option" where
  "fetch_eastmoney_nav code r =
     (case r of
        Raised e \<Rightarrow> None
      | Parsed None \<Rightarrow> None
      | Parsed (Some []) \<Rightarrow> None
      | Parsed (Some (latest # rest)) \<Rightarrow>
          Some \<lparr> n_dwjz = float_or_0 (j_DWJZ latest),
                 n_ljjz = float_or_0 (j_LJJZ latest),
                 n_jzzzl = float_or_0 (j_JZZZL latest),
                 n_fsrq = get_or (j_FSRQ latest) '''' \<rparr>)"

text \<open>One entry of \<^verbatim>\<open>Datas\<close>, the reply of the detail provider.\<close>

record detail_json =
  j_FCODE :: "string option"
  j_SHORTNAME :: "string option"
  j_FTYPE :: "string option"
  j_DWJZ_d :: "real option"
  j_GSZ :: "real option"
  j_GSZZL :: "real option"
  j_GZTIME :: "string option"
  j_PDATE :: "string option"

text \<open>The dictionary \<^verbatim>\<open>fetch_eastmoney_detail\<close> returns.\<close>

record detail_dict =
  d_code :: string
  d_name :: string
  d_type :: string
  d_dwjz :: real
  d_gsz :: real
  d_gszzl :: real
  d_gztime :: string
  d_pdate :: string

text \<open>
  \<^verbatim>\<open>fetch_eastmoney_detail\<close> (lines 104-132); \<open>Parsed l\<close> carries \<^verbatim>\<open>data.get('Datas')\<close>,
  an empty (or missing) list being falsy.
\<close>

definition fetch_eastmoney_detail :: "string \<Rightarrow> detail_json list reply \<Rightarrow> detail_dict option" where
  "fetch_eastmoney_detail code r =
     (case r of
        Raised e \<Rightarrow> None
      | Parsed [] \<Rightarrow> None
      | Parsed (d # rest) \<Rightarrow>
          Some \<lparr> d_code = get_or (j_FCODE d) code,
                 d_name = get_or (j_SHORTNAME d) '''',
                 d_type = get_or (j_FTYPE d) '''',
                 d_dwjz = float_or_0 (j_DWJZ_d d),
                 d_gsz = float_or_0 (j_GSZ d),
                 d_gszzl = float_or_0 (j_GSZZL d),
                 d_gztime = get_or (j_GZTIME d) '''',
                 d_pdate = get_or (j_PDATE d) '''' \<rparr>)"

subsection \<open>The merged result\<close>

text \<open>The \<^verbatim>\<open>sources\<close> sub-dictionary and the result dictionary of \<^verbatim>\<open>get_fund_data\<close>.\<close>

record sources_dict =
  src_estimate :: bool
  src_nav :: bool
  src_detail :: bool

record fund_result =
  code :: string
  name :: string
  type :: string
  nav :: real
  navDate :: string
  navChange :: real
  estimate :: real
  estimateTime :: string
  estimateChange :: real
  currentValue :: real
  dayChange :: real
  sources :: sources_dict
  updateTime :: string

text \<open>
  Lines 155-205 of \<^verbatim>\<open>get_fund_data\<close>, statement by statement. \<open>initial_result\<close> is the
  dictionary literal; \<open>now_str\<close> is \<^verbatim>\<open>datetime.now().strftime(...)\<close>, read when the literal
  is built. Every adapter dictionary is non-empty, so \<^verbatim>\<open>if detail:\<close> tests for \<open>Some\<close>.
\<close>

definition initial_result ::
  "string \<Rightarrow> estimate_dict option \<Rightarrow> nav_dict option \<Rightarrow> detail_dict option \<Rightarrow> string \<Rightarrow> fund_result" where
  "initial_result c est nv det now_str =
     \<lparr> code = c, name = '''', type = '''',
       nav = 0, navDate = '''', navChange = 0,
       estimate = 0, estimateTime = '''', estimateChange = 0,
       currentValue = 0, dayChange = 0,
       sources = \<lparr> src_estimate = (est \<noteq> None), src_nav = (nv \<noteq> None), src_detail = (det \<noteq> None) \<rparr>,
       updateTime = now_str \<rparr>"

definition fill_detail :: "detail_dict option \<Rightarrow> fund_result \<Rightarrow> fund_result" where
  "fill_detail det r =
     (case det of
        None \<Rightarrow> r
      | Some d \<Rightarrow> r\<lparr> name := d_name d, type := d_type d,
                     estimate := d_gsz d, estimateTime := d_gztime d, estimateChange := d_gszzl d \<rparr>)"

definition fill_estimate :: "estimate_dict option \<Rightarrow> fund_result \<Rightarrow> fund_result" where
  "fill_estimate est r =
     (case est of
        None \<Rightarrow> r
      | Some e \<Rightarrow> r\<lparr> name := (if name r \<noteq> '''' then name r else e_name e),
                     estimate := e_gsz e, estimateTime := e_gztime e, estimateChange := e_gszzl e \<rparr>)"

definition fill_nav :: "nav_dict option \<Rightarrow> fund_result \<Rightarrow> fund_result" where
  "fill_nav nv r =
     (case nv of
        None \<Rightarrow> r
      | Some n \<Rightarrow> r\<lparr> nav := n_dwjz n, navDate := n_fsrq n, navChange := n_jzzzl n \<rparr>)"

definition recommend :: "fund_result \<Rightarrow> fund_result" where
  "recommend r =
     (if nav r > 0 then r\<lparr> currentValue := nav r, dayChange := navChange r \<rparr>
      else if estimate r > 0 then r\<lparr> currentValue := estimate r, dayChange := estimateChange r \<rparr>
      else r)"

definition merge_sources ::
  "string \<Rightarrow> estimate_dict option \<Rightarrow> nav_dict option \<Rightarrow> detail_dict option \<Rightarrow> string \<Rightarrow> fund_result" where
  "merge_sources c est nv det now_str =
     recommend (fill_nav nv (fill_estimate est (fill_detail det (initial_result c est nv det now_str))))"

section \<open>The cache and the single-fund pipeline\<close>

text \<open>
  The module-level dictionary \<^verbatim>\<open>cache\<close> maps a key to an item with the fields \<^verbatim>\<open>data\<close>
  and \<^verbatim>\<open>timestamp\<close>. \<open>get_cached\<close> and \<open>set_cache\<close> (lines 36-52) each run under
  \<^verbatim>\<open>cache_lock\<close>, so each is one atomic step; \<open>now\<close> is the value of \<^verbatim>\<open>time.time()\<close> read
  inside. In \<open>get_cached\<close>, \<open>sub\<close> is the subtraction of line 41, on doubles: the machine
  rounds the exact difference to the nearest double, so that \<^verbatim>\<open>30.2 - 0.2\<close> is \<open>30.0\<close> although
  the two doubles differ by less than 30. The model assumes nothing about \<open>sub\<close>; the
  comparison with \<^verbatim>\<open>CACHE_TTL\<close> is exact.
\<close>

definition CACHE_TTL :: real where
  "CACHE_TTL = 30"

record cache_item =
  data :: fund_result
  timestamp :: real

type_synonym cache_dict = "string \<rightharpoonup> cache_item"

definition get_cached ::
  "(real \<Rightarrow> real \<Rightarrow> real) \<Rightarrow> cache_dict \<Rightarrow> string \<Rightarrow> real \<Rightarrow> fund_result option" where
  "get_cached sub m key now =
     (case m key of
        None \<Rightarrow> None
      | Some item \<Rightarrow> if sub now (timestamp item) < CACHE_TTL then Some (data item) else None)"

definition set_cache :: "cache_dict \<Rightarrow> string \<Rightarrow> fund_result \<Rightarrow> real \<Rightarrow> cache_dict" where
  "set_cache m key d now = m(key \<mapsto> \<lparr> data = d, timestamp = now \<rparr>)"

definition cache_key :: "string \<Rightarrow> string" where
  "cache_key c = ''fund_'' @ c"

text \<open>
  The state of the server: the cache, and a log with one entry (the fund code) for every
  time the fetch stage of \<^verbatim>\<open>get_fund_data\<close> (lines 146-153, where the three adapters are
  submitted) was entered. The log is not in the source; it makes "no adapter was invoked"
  and "how many fetches ran" statable.
\<close>

record server_state =
  cache :: cache_dict
  fetches :: "string list"

text \<open>
  What one call of \<^verbatim>\<open>get_fund_data\<close> takes from outside: the clock in \<open>get_cached\<close> and
  the subtraction of doubles of the machine that runs the call (\<open>float_sub\<close>), the three
  upstream replies, the formatted clock of \<^verbatim>\<open>updateTime\<close>, and the clock in
  \<open>set_cache\<close>. \<open>executor_fault\<close> is \<open>Some e\<close> when an exception escapes from the fetch stage
  itself (\<^verbatim>\<open>executor.submit\<close> raises \<^verbatim>\<open>RuntimeError\<close> when no worker thread can be started):
  the adapters catch every \<^verbatim>\<open>Exception\<close> of their own request, so this is the only way
  \<^verbatim>\<open>get_fund_data\<close> raises.
\<close>

record call_env =
  check_time :: real
  float_sub :: "real \<Rightarrow> real \<Rightarrow> real"
  executor_fault :: "string option"
  estimate_reply :: "tiantian_json option reply"
  nav_reply :: "lsjz_json list option reply"
  detail_reply :: "detail_json list reply"
  now_str :: string
  store_time :: real

text \<open>Lines 146-205: the three adapters on their replies, then the merge.\<close>

definition fetch_and_merge :: "string \<Rightarrow> call_env \<Rightarrow> fund_result" where
  "fetch_and_merge c env =
     merge_sources c
       (fetch_tiantian_estimate c (estimate_reply env))
       (fetch_eastmoney_nav c (nav_reply env))
       (fetch_eastmoney_detail c (detail_reply env))
       (now_str env)"

text \<open>
  \<^verbatim>\<open>get_fund_data\<close> (lines 135-208) as one sequential call: \<open>Inl e\<close> is the exception \<open>e\<close>
  propagating to the caller, \<open>Inr d\<close> the returned dictionary. A cached dictionary is never
  empty, so \<^verbatim>\<open>if cached:\<close> tests for \<open>Some\<close>.
\<close>

definition get_fund_data :: "server_state \<Rightarrow> string \<Rightarrow> call_env \<Rightarrow> (string + fund_result) \<times> server_state" where
  "get_fund_data st c env =
     (case get_cached (float_sub env) (cache st) (cache_key c) (check_time env) of
        Some cached \<Rightarrow> (Inr cached, st)
      | None \<Rightarrow>
          (let st1 = st\<lparr> fetches := fetches st @ [c] \<rparr> in
           case executor_fault env of
             Some e \<Rightarrow> (Inl e, st1)
           | None \<Rightarrow>
               (let result = fetch_and_merge c env in
                (Inr result,
                 st1\<lparr> cache := set_cache (cache st1) (cache_key c) result (store_time env) \<rparr>))))"

subsection \<open>Concurrent callers\<close>

text \<open>
  Flask serves requests on threads and \<^verbatim>\<open>get_funds\<close> submits \<^verbatim>\<open>get_fund_data\<close> to a
  thread pool, so several calls can be in progress at once. The only shared state is the
  cache, and it is only touched under \<^verbatim>\<open>cache_lock\<close>; a call therefore advances in three
  atomic steps: the cache check, the fetch stage with the merge (which touches no shared
  state), and the store. \<open>call_state\<close> is the program counter of one call:
  \<^item> \<open>Ready\<close>: before \<open>get_cached\<close>;
  \<^item> \<open>Missed\<close>: the cache had no fresh entry, the fetch stage has not run;
  \<^item> \<open>Merged r\<close>: the result \<open>r\<close> is built, \<open>set_cache\<close> has not run;
  \<^item> \<open>Hit d\<close>: returned the cached dictionary (line 143);
  \<^item> \<open>Stored r\<close>: stored and returned the result (line 208);
  \<^item> \<open>Faulted e\<close>: left by the exception \<open>e\<close>.
\<close>

datatype call_state = Ready | Missed | Merged fund_result
  | Hit fund_result | Stored fund_result | Faulted string

record call =
  call_code :: string
  call_env :: call_env
  call_at :: call_state

definition step_call :: "server_state \<Rightarrow> call \<Rightarrow> server_state \<times> call" where
  "step_call st th =
     (case call_at th of
        Ready \<Rightarrow>
          (case get_cached (float_sub (call_env th)) (cache st) (cache_key (call_code th)) (check_time (call_env th)) of
             Some cached \<Rightarrow> (st, th\<lparr> call_at := Hit cached \<rparr>)
           | None \<Rightarrow> (st, th\<lparr> call_at := Missed \<rparr>))
      | Missed \<Rightarrow>
          (let st1 = st\<lparr> fetches := fetches st @ [call_code th] \<rparr> in
           case executor_fault (call_env th) of
             Some e \<Rightarrow> (st1, th\<lparr> call_at := Faulted e \<rparr>)
           | None \<Rightarrow> (st1, th\<lparr> call_at := Merged (fetch_and_merge (call_code th) (call_env th)) \<rparr>))
      | Merged r \<Rightarrow>
          (st\<lparr> cache := set_cache (cache st) (cache_key (call_code th)) r (store_time (call_env th)) \<rparr>,
           th\<lparr> call_at := Stored r \<rparr>)
      | Hit d \<Rightarrow> (st, th)
      | Stored r \<Rightarrow> (st, th)
      | Faulted e \<Rightarrow> (st, th))"

text \<open>
  A schedule is the list of the indices of the calls that take the next step, in order; an
  index that names no call, or a call that has returned, lets the step pass.
\<close>

definition step_at :: "nat \<Rightarrow> server_state \<times> call list \<Rightarrow> server_state \<times> call list" where
  "step_at i sys =
     (case sys of (st, ths) \<Rightarrow>
        if i < length ths
        then (case step_call st (ths ! i) of (st1, th1) \<Rightarrow> (st1, ths[i := th1]))
        else (st, ths))"

primrec run :: "nat list \<Rightarrow> server_state \<times> call list \<Rightarrow> server_state \<times> call list" where
  "run [] sys = sys"
| "run (i # sch) sys = run sch (step_at i sys)"

text \<open>
  \<^verbatim>\<open>future.result()\<close> waits until the call has returned: \<open>finish_call\<close> lets a call take
  its remaining steps and gives what it returns or raises.
\<close>

definition steps_left :: "call_state \<Rightarrow> nat" where
  "steps_left s = (case s of Ready \<Rightarrow> 3 | Missed \<Rightarrow> 2 | Merged r \<Rightarrow> 1 | _ \<Rightarrow> 0)"

function finish_call :: "server_state \<Rightarrow> call \<Rightarrow> (string + fund_result) \<times> server_state" where
  "finish_call st th =
     (case call_at th of
        Hit d \<Rightarrow> (Inr d, st)
      | Stored r \<Rightarrow> (Inr r, st)
      | Faulted e \<Rightarrow> (Inl e, st)
      | _ \<Rightarrow> (let (st1, th1) = step_call st th in finish_call st1 th1))"
  by pat_completeness auto
termination
  by (relation "measure (\<lambda>(st, th). steps_left (call_at th))")
     (auto simp: step_call_def steps_left_def Let_def split: call_state.splits option.splits)

section \<open>The batch endpoint\<close>

subsection \<open>Parsing the \<^verbatim>\<open>codes\<close> parameter\<close>

text \<open>
  \<^verbatim>\<open>str.split(',')\<close>: the pieces between the commas, one more piece than there are commas
  (the empty string gives one empty piece).
\<close>

fun split_commas :: "string \<Rightarrow> string list" where
  "split_commas [] = [[]]"
| "split_commas (c # cs) =
     (if c = CHR '','' then [] # split_commas cs
      else (case split_commas cs of
              [] \<Rightarrow> [[c]]
            | w # ws \<Rightarrow> (c # w) # ws))"

text \<open>
  \<^verbatim>\<open>str.strip()\<close> removes leading and trailing whitespace. Among the code points below 256
  Python counts as whitespace: 9 to 13, 28 to 32, 133 and 160.
\<close>

definition isspace :: "char \<Rightarrow> bool" where
  "isspace c =
     (let n = (of_char c :: nat) in
      (9 \<le> n \<and> n \<le> 13) \<or> (28 \<le> n \<and> n \<le> 32) \<or> n = 133 \<or> n = 160)"

definition strip :: "string \<Rightarrow> string" where
  "strip s = rev (dropWhile isspace (rev (dropWhile isspace s)))"

text \<open>Lines 226-227: \<^verbatim>\<open>[c.strip() for c in codes if c.strip()]\<close> over the split parameter.\<close>

definition parse_codes :: "string \<Rightarrow> string list" where
  "parse_codes raw = map strip (filter (\<lambda>c. strip c \<noteq> []) (split_commas raw))"

subsection \<open>The worker pool\<close>

text \<open>
  \<^verbatim>\<open>executor.submit(get_fund_data, code)\<close> for each code creates one call; \<open>envs i\<close> is what
  the \<open>i\<close>-th call reads from outside. The calls then advance under a schedule \<open>sch\<close>, and
  \<^verbatim>\<open>future.result()\<close>, in submission order, waits for each. Every interleaving of the
  calls' atomic steps is some \<open>sch\<close>; the bound of ten workers only excludes some of them.
  The pool of \<^verbatim>\<open>get_funds\<close> itself is taken to accept every submission.
\<close>

definition submit_all :: "string list \<Rightarrow> (nat \<Rightarrow> call_env) \<Rightarrow> call list" where
  "submit_all codes envs =
     map (\<lambda>i. \<lparr> call_code = codes ! i, call_env = envs i, call_at = Ready \<rparr>) [0..<length codes]"

fun join_all :: "server_state \<Rightarrow> call list \<Rightarrow> (string + fund_result) list \<times> server_state" where
  "join_all st [] = ([], st)"
| "join_all st (th # ths) =
     (let (out, st1) = finish_call st th;
          (outs, st2) = join_all st1 ths
      in (out # outs, st2))"

definition run_pool :: "server_state \<Rightarrow> call list \<Rightarrow> nat list \<Rightarrow> (string + fund_result) list \<times> server_state" where
  "run_pool st calls sch = (let (st1, ths) = run sch (st, calls) in join_all st1 ths)"

subsection \<open>\<^verbatim>\<open>get_funds\<close>\<close>

text \<open>
  The two validation failures (lines 229-239); their messages say "please provide a list of
  fund codes" and "at most 50 funds per query".
\<close>

datatype validation_error = NoCodes | TooManyCodes

text \<open>
  A value of the \<^verbatim>\<open>results\<close> dictionary: the fund's dictionary, or \<^verbatim>\<open>{'error': str(e)}\<close>.
\<close>

datatype entry = FundData fund_result | ErrorEntry string

datatype response = Failure validation_error | Success "string \<rightharpoonup> entry"

text \<open>Lines 244-249: the loop over the futures, in submission order.\<close>

fun collect :: "(string \<rightharpoonup> entry) \<Rightarrow> (string \<times> (string + fund_result)) list \<Rightarrow> (string \<rightharpoonup> entry)" where
  "collect results [] = results"
| "collect results ((c, out) # futures) =
     collect (results(c \<mapsto> (case out of Inr d \<Rightarrow> FundData d | Inl e \<Rightarrow> ErrorEntry e))) futures"

text \<open>
  \<^verbatim>\<open>get_funds\<close> (lines 224-254); \<open>arg\<close> is the \<^verbatim>\<open>codes\<close> query parameter, \<open>None\<close> when the
  request has none.
\<close>

definition get_funds ::
  "server_state \<Rightarrow> string option \<Rightarrow> (nat \<Rightarrow> call_env) \<Rightarrow> nat list \<Rightarrow> response \<times> server_state" where
  "get_funds st arg envs sch =
     (let codes = parse_codes (get_or arg '''') in
      if codes = [] then (Failure NoCodes, st)
      else if length codes > 50 then (Failure TooManyCodes, st)
      else (let (outs, st1) = run_pool st (submit_all codes envs) sch
            in (Success (collect Map.empty (zip codes outs)), st1)))"

section \<open>The command-line fetcher\<close>

text \<open>
  \<^verbatim>\<open>FundAPI.fetch_fund_data\<close> (\<^verbatim>\<open>src/scripts/fund_api.py\<close>, lines 173-196) submits four
  adapters and reads the futures as they complete. \<open>outcome s\<close> is what the future of source
  \<open>s\<close> holds: \<open>Inl e\<close> an exception, \<open>Inr r\<close> the adapter's \<^verbatim>\<open>Optional[Dict]\<close>; \<open>order\<close> is
  the order in which \<^verbatim>\<open>as_completed\<close> yields the futures. In the \<^verbatim>\<open>results\<close> dictionary a
  key bound to \<^verbatim>\<open>None\<close> is \<open>Some None\<close>.
\<close>

datatype source = tiantian | eastmoney_nav | eastmoney_detail | ant

fun record_outcomes ::
  "(source \<rightharpoonup> 'd option) \<Rightarrow> (source \<times> (string + 'd option)) list \<Rightarrow> (source \<rightharpoonup> 'd option)" where
  "record_outcomes results [] = results"
| "record_outcomes results ((s, out) # rest) =
     record_outcomes (results(s \<mapsto> (case out of Inr r \<Rightarrow> r | Inl e \<Rightarrow> None))) rest"

definition fetch_fund_data ::
  "(source \<Rightarrow> string + 'd option) \<Rightarrow> source list \<Rightarrow> (source \<rightharpoonup> 'd option)" where
  "fetch_fund_data outcome order = record_outcomes Map.empty (map (\<lambda>s. (s, outcome s)) order)"

section \<open>Notions used in the statements and proofs\<close>

text \<open>
  \<^verbatim>\<open>','.join(entries)\<close>, the request parameter that a list of entries makes; it is the
  inverse of \<open>split_commas\<close> on entries that hold no comma.
\<close>

fun join_commas :: "string list \<Rightarrow> string" where
  "join_commas [] = []"
| "join_commas [p] = p"
| "join_commas (p # q # ps) = p @ CHR '','' # join_commas (q # ps)"

text \<open>What a call that has returned gives to \<^verbatim>\<open>future.result()\<close>; \<open>None\<close> while it runs.\<close>

definition result_of :: "call_state \<Rightarrow> (string + fund_result) option" where
  "result_of s =
     (case s of
        Hit d \<Rightarrow> Some (Inr d)
      | Stored r \<Rightarrow> Some (Inr r)
      | Faulted e \<Rightarrow> Some (Inl e)
      | _ \<Rightarrow> None)"

text \<open>A call has entered the fetch stage: each such call added one entry to the fetch log.\<close>

definition fetched :: "call \<Rightarrow> bool" where
  "fetched th =
     (case call_at th of Merged r \<Rightarrow> True | Stored r \<Rightarrow> True | Faulted e \<Rightarrow> True | _ \<Rightarrow> False)"



text \<open>
  The invariant of concurrent calls for one fund code \<open>c\<close>, started from the state \<open>st0\<close>
  as the calls \<open>calls\<close>: the fetch log has grown by one entry per call that entered the
  fetch stage; the cache entry of \<open>c\<close> is the initial one or the result that a call has
  stored; a call that returned by a cache hit holds the record that another call stored; and
  a call that merged, stored or raised did so with the result or the exception of its own
  fetch stage.
\<close>

definition coalesce_inv ::
  "server_state \<Rightarrow> string \<Rightarrow> call list \<Rightarrow> server_state \<times> call list \<Rightarrow> bool" where
  "coalesce_inv st0 c calls sys =
     (case sys of (st, ths) \<Rightarrow>
        length ths = length calls
      \<and> (\<forall>i<length calls. call_code (ths ! i) = c \<and> call_env (ths ! i) = call_env (calls ! i))
      \<and> fetches st = fetches st0 @ replicate (length (filter fetched ths)) c
      \<and> (cache st (cache_key c) = cache st0 (cache_key c)
         \<or> (\<exists>j<length calls. call_at (ths ! j) = Stored (fetch_and_merge c (call_env (calls ! j)))
               \<and> cache st (cache_key c)
                   = Some \<lparr> data = fetch_and_merge c (call_env (calls ! j)),
                            timestamp = store_time (call_env (calls ! j)) \<rparr>))
      \<and> (\<forall>i<length calls.
            case call_at (ths ! i) of
              Hit d \<Rightarrow> (\<exists>j<length calls. call_at (ths ! j) = Stored d
                          \<and> d = fetch_and_merge c (call_env (calls ! j)))
            | Merged r \<Rightarrow> r = fetch_and_merge c (call_env (calls ! i))
                          \<and> executor_fault (call_env (calls ! i)) = None
            | Stored r \<Rightarrow> r = fetch_and_merge c (call_env (calls ! i))
                          \<and> executor_fault (call_env (calls ! i)) = None
            | Faulted e \<Rightarrow> executor_fault (call_env (calls ! i)) = Some e
            | _ \<Rightarrow> True))"

text \<open>
  Joining the futures in submission order lets every call that has not returned take its
  remaining steps (at most three): \<open>completion n\<close> is that schedule for \<open>n\<close> calls, so that
  \<open>sch @ completion n\<close> is the whole schedule of a pool that ran \<open>sch\<close> and was joined.
\<close>

definition completion :: "nat \<Rightarrow> nat list" where
  "completion n = concat (map (\<lambda>i. [i, i, i]) [0..<n])"

section \<open>Sample inputs\<close>

text \<open>Concrete states, replies and environments on which the theorems below are evaluated.\<close>

definition empty_state :: server_state where
  "empty_state = \<lparr> cache = Map.empty, fetches = [] \<rparr>"

text \<open>The result dictionary as the literal of line 156 leaves it when no source has data.\<close>

definition zero_result :: "string \<Rightarrow> string \<Rightarrow> fund_result" where
  "zero_result c t =
     \<lparr> code = c, name = '''', type = '''', nav = 0, navDate = '''', navChange = 0,
       estimate = 0, estimateTime = '''', estimateChange = 0, currentValue = 0, dayChange = 0,
       sources = \<lparr> src_estimate = False, src_nav = False, src_detail = False \<rparr>,
       updateTime = t \<rparr>"

text \<open>
  The subtraction of doubles on the sample clock readings. Their differences are whole
  numbers, which the machine computes exactly, but for one pair: the doubles of 30.2 and
  0.2 differ by \<open>30 - 13 / 2 ^ 54\<close>, which lies within half a unit in the last place of
  30 (that is \<open>1 / 2 ^ 49\<close>) and is rounded to 30.
\<close>

definition sample_sub :: "real \<Rightarrow> real \<Rightarrow> real" where
  "sample_sub a b = (if \<bar>a - b - 30\<bar> \<le> 1 / 2 ^ 49 then 30 else a - b)"

text \<open>
  A call during an outage: the estimate request times out, the published-value response does
  not match and the detail response has no entry.
\<close>

definition outage_env :: call_env where
  "outage_env =
     \<lparr> check_time = 100, float_sub = sample_sub, executor_fault = None,
       estimate_reply = Raised ''timeout'', nav_reply = Parsed None, detail_reply = Parsed [],
       now_str = ''2024-01-02 10:00:00'', store_time = 101 \<rparr>"

text \<open>A state whose cache holds an entry for fund 000216, stored at time 100.\<close>

definition warm_state :: server_state where
  "warm_state =
     \<lparr> cache = [cache_key ''000216'' \<mapsto>
                  \<lparr> data = zero_result ''000216'' ''2024-01-02 09:59:00'', timestamp = 100 \<rparr>],
       fetches = [] \<rparr>"

text \<open>
  A state whose cache holds an entry stored at the double of 0.2; a call that checks the
  cache at the double of 30.2 finds it 30 seconds old.
\<close>

definition rounding_state :: server_state where
  "rounding_state =
     \<lparr> cache = [cache_key ''000216'' \<mapsto>
                  \<lparr> data = zero_result ''000216'' ''2024-01-02 09:59:00'',
                    timestamp = 3602879701896397 / 2 ^ 54 \<rparr>],
       fetches = [] \<rparr>"

text \<open>
  An estimate reply whose \<^verbatim>\<open>gsz\<close> is \<^verbatim>\<open>null\<close>, and a detail reply that carries an estimate
  of 1.5.
\<close>

definition null_estimate_json :: tiantian_json where
  "null_estimate_json =
     \<lparr> j_fundcode = Some ''000216'', j_name = Some ''Gold ETF'', j_dwjz = Some (5 / 4),
       j_gsz = None, j_gszzl = None, j_gztime = None \<rparr>"

definition detail_json_with_estimate :: detail_json where
  "detail_json_with_estimate =
     \<lparr> j_FCODE = Some ''000216'', j_SHORTNAME = Some ''Gold ETF'', j_FTYPE = Some ''ETF'',
       j_DWJZ_d = Some (5 / 4), j_GSZ = Some (3 / 2), j_GSZZL = Some (1 / 2),
       j_GZTIME = Some ''2024-01-02 10:00'', j_PDATE = Some ''2024-01-01'' \<rparr>"

text \<open>
  Four futures of the command-line fetcher, one of which holds an exception, and an order
  of completion.
\<close>

definition sample_outcome :: "source \<Rightarrow> string + nat option" where
  "sample_outcome s =
     (case s of
        tiantian \<Rightarrow> Inr (Some 1)
      | eastmoney_nav \<Rightarrow> Inl ''boom''
      | eastmoney_detail \<Rightarrow> Inr None
      | ant \<Rightarrow> Inr (Some 4))"

definition sample_order :: "source list" where
  "sample_order = [ant, eastmoney_nav, tiantian, eastmoney_detail]"

text \<open>A request parameter with 51 codes.\<close>

definition fifty_one_codes :: string where
  "fifty_one_codes = join_commas (replicate 51 ''000216'')"

text \<open>Entries of a request, two of them blank; and entries that are all blank.\<close>

definition sample_entries :: "string list" where
  "sample_entries = ['' 000216'', '' '', [], ''320007 '']"

definition blank_entries :: "string list" where
  "blank_entries = ['' '', [], ''  '']"



text \<open>
  A call whose estimate adapter succeeds, and two callers of fund 000216 whose cache checks
  (both at time 100) precede the first store, at time 101.
\<close>

definition live_env :: call_env where
  "live_env =
     \<lparr> check_time = 100, float_sub = sample_sub, executor_fault = None,
       estimate_reply = Parsed (Some \<lparr> j_fundcode = Some ''000216'', j_name = Some ''Gold ETF'',
          j_dwjz = Some (5 / 4), j_gsz = Some (3 / 2), j_gszzl = Some (1 / 2),
          j_gztime = Some ''2024-01-02 10:00'' \<rparr>),
       nav_reply = Parsed None, detail_reply = Parsed [],
       now_str = ''2024-01-02 10:00:00'', store_time = 102 \<rparr>"

definition two_calls :: "call list" where
  "two_calls =
     [\<lparr> call_code = ''000216'', call_env = live_env, call_at = Ready \<rparr>,
      \<lparr> call_code = ''000216'', call_env = outage_env, call_at = Ready \<rparr>]"

text \<open>A second caller that checks the cache at time 110, after the first has stored.\<close>

definition late_env :: call_env where
  "late_env = outage_env\<lparr> check_time := 110, store_time := 111 \<rparr>"

definition serial_calls :: "call list" where
  "serial_calls =
     [\<lparr> call_code = ''000216'', call_env = live_env, call_at = Ready \<rparr>,
      \<lparr> call_code = ''000216'', call_env = late_env, call_at = Ready \<rparr>]"

text \<open>The two calls of \<open>serial_calls\<close> after both have returned: the first stored, the second hit.\<close>

definition serial_returned :: "call list" where
  "serial_returned =
     [\<lparr> call_code = ''000216'', call_env = live_env,
        call_at = Stored (fetch_and_merge ''000216'' live_env) \<rparr>,
      \<lparr> call_code = ''000216'', call_env = late_env,
        call_at = Hit (fetch_and_merge ''000216'' live_env) \<rparr>]"

section \<open>Properties\<close>

declare finish_call.simps [simp del]

lemmas merge_defs =
  merge_sources_def recommend_def fill_nav_def fill_estimate_def fill_detail_def initial_result_def

subsection \<open>The merge\<close>

text \<open>
  C1. The recommended value: when the published-value adapter returned a record whose
  value is positive, \<open>currentValue\<close> and \<open>dayChange\<close> are the published value and its
  change, whatever the estimate; otherwise, when the merged estimate is positive, they are
  the estimate and its change; otherwise both are \<open>0\<close>. A published value that is missing
  or not positive counts as absent.
\<close>

theorem recommended_value_selection:
  "let r = merge_sources c est nv det t;
       published = (case nv of None \<Rightarrow> 0 | Some n \<Rightarrow> n_dwjz n);
       published_change = (case nv of None \<Rightarrow> 0 | Some n \<Rightarrow> n_jzzzl n)
   in nav r = published \<and> navChange r = published_change \<and>
      (currentValue r, dayChange r) =
        (if published > 0 then (published, published_change)
         else if estimate r > 0 then (estimate r, estimateChange r)
         else (0, 0))"
  by (simp add: merge_defs Let_def split: option.splits)

text \<open>
  C5, as the claim states it, fails: the merge reads the clock for \<open>updateTime\<close>, so two
  runs on the same adapter results, one second apart, give different records.
\<close>

theorem merge_differs_in_update_time:
  "merge_sources ''000216'' None None None ''2024-01-02 10:00:00''
     \<noteq> merge_sources ''000216'' None None None ''2024-01-02 10:00:01''"
  by (simp add: merge_defs)

text \<open>
  C5, amended. Two runs of the merge on the same fund code and the same adapter results
  give records that agree in every field but \<open>updateTime\<close>, which is the clock reading of
  each run.
\<close>

theorem merge_deterministic_up_to_update_time:
  "merge_sources c est nv det t1 = (merge_sources c est nv det t2)\<lparr> updateTime := t1 \<rparr>"
  by (simp add: merge_defs split: option.splits)

text \<open>
  C6, as the claim states it, fails: the estimate adapter's record replaces the detail
  adapter's estimate even when its own estimated value was \<^verbatim>\<open>null\<close> upstream (the adapter
  turns it into \<open>0\<close>). Here the detail adapter carries the estimate 1.5 and the merged
  estimate is \<open>0\<close>.
\<close>

theorem null_estimate_displaces_detail_estimate:
  "j_gsz null_estimate_json = None
   \<and> map_option d_gsz (fetch_eastmoney_detail ''000216'' (Parsed [detail_json_with_estimate]))
       = Some (3 / 2)
   \<and> estimate (merge_sources ''000216''
        (fetch_tiantian_estimate ''000216'' (Parsed (Some null_estimate_json)))
        None
        (fetch_eastmoney_detail ''000216'' (Parsed [detail_json_with_estimate]))
        ''2024-01-02 10:00:00'') = 0"
  by (simp add: merge_defs fetch_tiantian_estimate_def fetch_eastmoney_detail_def
        null_estimate_json_def detail_json_with_estimate_def float_or_0_def get_or_def)

text \<open>
  C6, amended. The merged \<open>estimate\<close>, \<open>estimateTime\<close> and \<open>estimateChange\<close> are those of
  the first adapter, in the order real-time estimate adapter, detail adapter, that returned
  a record at all, whatever that record's estimated value; when neither returned a record
  they are \<open>0\<close>, the empty string and \<open>0\<close>.
\<close>

theorem estimate_fields_from_first_present:
  "let r = merge_sources c est nv det t
   in (estimate r, estimateTime r, estimateChange r) =
        (case est of
           Some e \<Rightarrow> (e_gsz e, e_gztime e, e_gszzl e)
         | None \<Rightarrow> (case det of
                      Some d \<Rightarrow> (d_gsz d, d_gztime d, d_gszzl d)
                    | None \<Rightarrow> (0, '''', 0)))"
  by (simp add: merge_defs Let_def split: option.splits)

subsection \<open>The cache\<close>

text \<open>
  C3. When the cache has no fresh entry and each of the three adapters returns no record,
  \<open>get_fund_data\<close> returns (it does not raise) the record whose \<open>sources\<close> are all false
  and whose name and value fields are empty and zero, and stores that record in the cache.
\<close>

theorem total_outage_gives_zero_record:
  assumes "get_cached (float_sub env) (cache st) (cache_key c) (check_time env) = None"
      and "executor_fault env = None"
      and "fetch_tiantian_estimate c (estimate_reply env) = None"
      and "fetch_eastmoney_nav c (nav_reply env) = None"
      and "fetch_eastmoney_detail c (detail_reply env) = None"
  shows "get_fund_data st c env =
           (Inr (zero_result c (now_str env)),
            st\<lparr> fetches := fetches st @ [c],
                cache := (cache st)(cache_key c \<mapsto>
                   \<lparr> data = zero_result c (now_str env), timestamp = store_time env \<rparr>) \<rparr>)"
  using assms
  by (simp add: get_fund_data_def fetch_and_merge_def merge_defs zero_result_def
        set_cache_def Let_def)

theorem total_outage_witness:
  "get_fund_data empty_state ''000216'' outage_env =
     (Inr (zero_result ''000216'' ''2024-01-02 10:00:00''),
      \<lparr> cache = [cache_key ''000216'' \<mapsto>
           \<lparr> data = zero_result ''000216'' ''2024-01-02 10:00:00'', timestamp = 101 \<rparr>],
        fetches = [''000216''] \<rparr>)"
  using total_outage_gives_zero_record [where st = empty_state and c = "''000216''" and env = outage_env]
  by (simp add: empty_state_def outage_env_def get_cached_def fetch_tiantian_estimate_def
        fetch_eastmoney_nav_def fetch_eastmoney_detail_def)

text \<open>
  C4. The age of an entry is the difference between the clock reading of the call's cache
  check and the entry's timestamp, as the machine computes it (line 41). A call that finds
  an entry whose age is below \<open>CACHE_TTL\<close> returns the stored record and changes nothing:
  the fetch log is as before, no adapter ran. A call that finds no entry, or an entry whose
  age is \<open>CACHE_TTL\<close> or more, runs one fetch, returns its result and replaces the entry by
  that result, stamped with the clock at the store.
\<close>

theorem cache_freshness:
  "(\<forall>item. cache st (cache_key c) = Some item
            \<and> float_sub env (check_time env) (timestamp item) < CACHE_TTL
       \<longrightarrow> get_fund_data st c env = (Inr (data item), st))
   \<and> ((cache st (cache_key c) = None
        \<or> (\<exists>item. cache st (cache_key c) = Some item
                   \<and> float_sub env (check_time env) (timestamp item) \<ge> CACHE_TTL))
       \<and> executor_fault env = None
       \<longrightarrow> get_fund_data st c env =
             (Inr (fetch_and_merge c env),
              st\<lparr> fetches := fetches st @ [c],
                  cache := (cache st)(cache_key c \<mapsto>
                     \<lparr> data = fetch_and_merge c env, timestamp = store_time env \<rparr>) \<rparr>))"
  by (auto simp: get_fund_data_def get_cached_def set_cache_def Let_def)

lemma fetch_and_merge_outage:
  "fetch_and_merge ''000216'' (outage_env\<lparr> check_time := a, store_time := b \<rparr>)
     = zero_result ''000216'' ''2024-01-02 10:00:00''"
  "fetch_and_merge ''000216'' outage_env = zero_result ''000216'' ''2024-01-02 10:00:00''"
  by (simp_all add: fetch_and_merge_def merge_defs zero_result_def outage_env_def
        fetch_tiantian_estimate_def fetch_eastmoney_nav_def fetch_eastmoney_detail_def)

lemma sample_ages:
  "sample_sub 129 100 = 29"
  "sample_sub 130 100 = 30"
  "sample_sub (8500544296661811 / 2 ^ 48) (3602879701896397 / 2 ^ 54) = 30"
  by (simp_all add: sample_sub_def)

theorem cache_freshness_witness:
  "get_fund_data warm_state ''000216'' (outage_env\<lparr> check_time := 129 \<rparr>)
     = (Inr (zero_result ''000216'' ''2024-01-02 09:59:00''), warm_state)
   \<and> get_fund_data warm_state ''000216'' (outage_env\<lparr> check_time := 130, store_time := 131 \<rparr>)
     = (Inr (zero_result ''000216'' ''2024-01-02 10:00:00''),
        \<lparr> cache = [cache_key ''000216'' \<mapsto>
             \<lparr> data = zero_result ''000216'' ''2024-01-02 10:00:00'', timestamp = 131 \<rparr>],
          fetches = [''000216''] \<rparr>)
   \<and> get_fund_data rounding_state ''000216''
         (outage_env\<lparr> check_time := 8500544296661811 / 2 ^ 48, store_time := 31 \<rparr>)
     = (Inr (zero_result ''000216'' ''2024-01-02 10:00:00''),
        \<lparr> cache = [cache_key ''000216'' \<mapsto>
             \<lparr> data = zero_result ''000216'' ''2024-01-02 10:00:00'', timestamp = 31 \<rparr>],
          fetches = [''000216''] \<rparr>)
   \<and> get_fund_data empty_state ''000216'' outage_env
     = (Inr (zero_result ''000216'' ''2024-01-02 10:00:00''),
        \<lparr> cache = [cache_key ''000216'' \<mapsto>
             \<lparr> data = zero_result ''000216'' ''2024-01-02 10:00:00'', timestamp = 101 \<rparr>],
          fetches = [''000216''] \<rparr>)"
proof -
  have env: "float_sub (outage_env\<lparr> check_time := a, store_time := b \<rparr>) = sample_sub"
            "float_sub (outage_env\<lparr> check_time := a \<rparr>) = sample_sub"
            "executor_fault (outage_env\<lparr> check_time := a, store_time := b \<rparr>) = None"
            "executor_fault outage_env = None" for a b
    by (simp_all add: outage_env_def)
  show ?thesis
    using cache_freshness [of warm_state "''000216''" "outage_env\<lparr> check_time := 129 \<rparr>"]
          cache_freshness [of warm_state "''000216''" "outage_env\<lparr> check_time := 130, store_time := 131 \<rparr>"]
          cache_freshness [of rounding_state "''000216''"
             "outage_env\<lparr> check_time := 8500544296661811 / 2 ^ 48, store_time := 31 \<rparr>"]
          cache_freshness [of empty_state "''000216''" outage_env]
    by (simp add: warm_state_def rounding_state_def empty_state_def CACHE_TTL_def env
          fetch_and_merge_outage sample_sub_def)
       (simp add: outage_env_def)
qed

subsection \<open>The fetch stage\<close>

lemma record_outcomes_lookup:
  "record_outcomes m (map (\<lambda>s. (s, outcome s)) order) s =
     (if s \<in> set order then Some (case outcome s of Inr r \<Rightarrow> r | Inl e \<Rightarrow> None) else m s)"
  by (induction order arbitrary: m) auto

lemma UNIV_source: "UNIV = {tiantian, eastmoney_nav, eastmoney_detail, ant}"
  using source.exhaust by auto

text \<open>
  C9. In the command-line fetcher, whatever the order of completion, the result has
  exactly one entry per adapter, and the entry of an adapter is its own outcome: its
  record, or \<^verbatim>\<open>None\<close> when it returned \<^verbatim>\<open>None\<close> or its future raised; the other entries
  are what they would be without that failure. In the server, an adapter whose request
  raises returns no record, and the merged record marks each source by whether its own
  adapter returned a record.
\<close>

theorem one_outcome_per_adapter:
  assumes "set order = UNIV"
  shows "dom (fetch_fund_data outcome order) = UNIV
         \<and> (\<forall>s. fetch_fund_data outcome order s
                  = Some (case outcome s of Inr r \<Rightarrow> r | Inl e \<Rightarrow> None))
         \<and> fetch_tiantian_estimate c (Raised e1) = None
         \<and> fetch_eastmoney_nav c (Raised e2) = None
         \<and> fetch_eastmoney_detail c (Raised e3) = None
         \<and> sources (fetch_and_merge c env) =
             \<lparr> src_estimate = (fetch_tiantian_estimate c (estimate_reply env) \<noteq> None),
               src_nav = (fetch_eastmoney_nav c (nav_reply env) \<noteq> None),
               src_detail = (fetch_eastmoney_detail c (detail_reply env) \<noteq> None) \<rparr>"
proof -
  have look: "\<And>s. fetch_fund_data outcome order s
                 = Some (case outcome s of Inr r \<Rightarrow> r | Inl e \<Rightarrow> None)"
    using assms by (simp add: fetch_fund_data_def record_outcomes_lookup)
  have "dom (fetch_fund_data outcome order) = UNIV"
    using look by (auto simp: dom_def)
  moreover have "sources (fetch_and_merge c env) =
             \<lparr> src_estimate = (fetch_tiantian_estimate c (estimate_reply env) \<noteq> None),
               src_nav = (fetch_eastmoney_nav c (nav_reply env) \<noteq> None),
               src_detail = (fetch_eastmoney_detail c (detail_reply env) \<noteq> None) \<rparr>"
    by (simp add: fetch_and_merge_def merge_defs split: option.splits)
  ultimately show ?thesis
    using look
    by (simp add: fetch_tiantian_estimate_def fetch_eastmoney_nav_def fetch_eastmoney_detail_def)
qed

theorem one_outcome_per_adapter_witness:
  "dom (fetch_fund_data sample_outcome sample_order) = {tiantian, eastmoney_nav, eastmoney_detail, ant}
   \<and> fetch_fund_data sample_outcome sample_order tiantian = Some (Some 1)
   \<and> fetch_fund_data sample_outcome sample_order eastmoney_nav = Some None
   \<and> fetch_fund_data sample_outcome sample_order eastmoney_detail = Some None
   \<and> fetch_fund_data sample_outcome sample_order ant = Some (Some 4)
   \<and> sources (fetch_and_merge ''000216'' outage_env)
       = \<lparr> src_estimate = False, src_nav = False, src_detail = False \<rparr>"
proof -
  have h: "set sample_order = UNIV"
    by (auto simp: sample_order_def UNIV_source)
  show ?thesis
    using one_outcome_per_adapter [OF h, of sample_outcome "''000216''" "''timeout''" "''timeout''"
            "''timeout''" outage_env]
    by (simp add: sample_outcome_def UNIV_source outage_env_def fetch_tiantian_estimate_def
          fetch_eastmoney_nav_def fetch_eastmoney_detail_def)
qed

subsection \<open>Parsing and validation of a batch\<close>

text \<open>
  \<open>strip\<close> leaves nothing exactly of a blank string, and splitting undoes joining.
\<close>

lemma strip_empty_iff: "strip s = [] \<longleftrightarrow> list_all isspace s"
proof -
  have "strip s = [] \<longleftrightarrow> (\<forall>x\<in>set (dropWhile isspace s). isspace x)"
    by (simp add: strip_def dropWhile_eq_Nil_conv)
  also have "\<dots> \<longleftrightarrow> dropWhile isspace s = []"
  proof
    assume a: "\<forall>x\<in>set (dropWhile isspace s). isspace x"
    show "dropWhile isspace s = []"
    proof (rule ccontr)
      assume ne: "dropWhile isspace s \<noteq> []"
      then have "\<not> isspace (hd (dropWhile isspace s))" by (rule hd_dropWhile)
      moreover have "hd (dropWhile isspace s) \<in> set (dropWhile isspace s)" using ne by simp
      ultimately show False using a by blast
    qed
  next
    assume "dropWhile isspace s = []"
    then show "\<forall>x\<in>set (dropWhile isspace s). isspace x"
      by (auto dest: set_dropWhileD)
  qed
  also have "\<dots> \<longleftrightarrow> list_all isspace s"
    by (simp add: dropWhile_eq_Nil_conv list_all_iff)
  finally show ?thesis .
qed

lemma split_commas_not_Nil: "split_commas s \<noteq> []"
  by (induction s) (auto split: list.splits)

lemma split_commas_no_comma: "CHR '','' \<notin> set p \<Longrightarrow> split_commas p = [p]"
  by (induction p) (auto split: list.splits)

lemma split_commas_append:
  "CHR '','' \<notin> set p \<Longrightarrow> split_commas (p @ CHR '','' # rest) = p # split_commas rest"
  by (induction p) (auto split: list.splits)

lemma split_join_commas:
  "entries \<noteq> [] \<Longrightarrow> \<forall>p\<in>set entries. CHR '','' \<notin> set p \<Longrightarrow> split_commas (join_commas entries) = entries"
  by (induction entries rule: join_commas.induct)
     (simp_all add: split_commas_no_comma split_commas_append)

lemma parse_codes_filter:
  "parse_codes raw = map strip (filter (\<lambda>p. \<not> list_all isspace p) (split_commas raw))"
  by (simp add: parse_codes_def strip_empty_iff)

lemma get_funds_cases:
  "get_funds st arg envs sch =
     (if parse_codes (get_or arg '''') = [] then (Failure NoCodes, st)
      else if length (parse_codes (get_or arg '''')) > 50 then (Failure TooManyCodes, st)
      else (Success (collect Map.empty (zip (parse_codes (get_or arg ''''))
                (fst (run_pool st (submit_all (parse_codes (get_or arg '''')) envs) sch)))),
            snd (run_pool st (submit_all (parse_codes (get_or arg '''')) envs) sch)))"
  by (simp add: get_funds_def Let_def split: prod.splits)

text \<open>
  C7. When the parsed list of codes is empty, and when it has more than 50 codes,
  \<open>get_funds\<close> answers with the validation failure and the server state is the one it
  started from: the fetch log has no new entry and the cache is untouched, so no call of
  \<open>get_fund_data\<close> was submitted.
\<close>

theorem batch_validation:
  "(parse_codes (get_or arg '''') = [] \<longrightarrow> get_funds st arg envs sch = (Failure NoCodes, st))
   \<and> (length (parse_codes (get_or arg '''')) > 50
        \<longrightarrow> get_funds st arg envs sch = (Failure TooManyCodes, st))"
  by (auto simp: get_funds_cases)

lemma len51: "length (parse_codes fifty_one_codes) = 51"
  unfolding fifty_one_codes_def by code_simp

theorem batch_validation_witness:
  "get_funds warm_state None (\<lambda>i. outage_env) [] = (Failure NoCodes, warm_state)
   \<and> get_funds warm_state (Some '' , ,,'') (\<lambda>i. outage_env) [] = (Failure NoCodes, warm_state)
   \<and> get_funds warm_state (Some fifty_one_codes) (\<lambda>i. outage_env) [] = (Failure TooManyCodes, warm_state)"
proof -
  have a: "parse_codes (get_or None '''') = []" by code_simp
  have b: "parse_codes (get_or (Some '' , ,,'') '''') = []" by code_simp
  have c: "length (parse_codes (get_or (Some fifty_one_codes) '''')) > 50"
    by (simp add: get_or_def len51)
  show ?thesis
    using batch_validation [of None warm_state "\<lambda>i. outage_env" "[]"]
          batch_validation [of "Some '' , ,,''" warm_state "\<lambda>i. outage_env" "[]"]
          batch_validation [of "Some fifty_one_codes" warm_state "\<lambda>i. outage_env" "[]"] a b c
    by simp
qed

text \<open>
  C10. For a request whose \<^verbatim>\<open>codes\<close> parameter is the entries \<open>entries\<close> joined by commas:
  the parsed codes are the stripped entries that are not blank (empty or whitespace only),
  in order; when every entry is blank the request is rejected with the empty-list failure
  and the state is unchanged; and the request is rejected for its size exactly when more
  than 50 entries are not blank, so blank entries do not count toward the cap.
\<close>

theorem blank_entries_are_discarded:
  assumes "entries \<noteq> []" and "\<forall>p\<in>set entries. CHR '','' \<notin> set p"
  shows "parse_codes (join_commas entries) = map strip (filter (\<lambda>p. \<not> list_all isspace p) entries)
     \<and> (list_all (list_all isspace) entries
          \<longrightarrow> get_funds st (Some (join_commas entries)) envs sch = (Failure NoCodes, st))
     \<and> (fst (get_funds st (Some (join_commas entries)) envs sch) = Failure TooManyCodes
          \<longleftrightarrow> length (filter (\<lambda>p. \<not> list_all isspace p) entries) > 50)"
proof -
  have p: "parse_codes (join_commas entries) = map strip (filter (\<lambda>p. \<not> list_all isspace p) entries)"
    using assms by (simp add: parse_codes_filter split_join_commas)
  have e: "list_all (list_all isspace) entries \<Longrightarrow> parse_codes (join_commas entries) = []"
    unfolding p by (simp add: list_all_iff filter_empty_conv)
  show ?thesis
    using p e by (auto simp: get_funds_cases get_or_def)
qed

theorem blank_entries_witness:
  "parse_codes (join_commas sample_entries) = [''000216'', ''320007'']
   \<and> get_funds warm_state (Some (join_commas blank_entries)) (\<lambda>i. outage_env) []
       = (Failure NoCodes, warm_state)
   \<and> fst (get_funds warm_state (Some (join_commas sample_entries)) (\<lambda>i. outage_env) [])
       \<noteq> Failure TooManyCodes"
proof -
  have s1: "sample_entries \<noteq> []" and s2: "\<forall>p\<in>set sample_entries. CHR '','' \<notin> set p"
    by (simp_all add: sample_entries_def)
  have b1: "blank_entries \<noteq> []" and b2: "\<forall>p\<in>set blank_entries. CHR '','' \<notin> set p"
    by (simp_all add: blank_entries_def)
  have v: "map strip (filter (\<lambda>p. \<not> list_all isspace p) sample_entries) = [''000216'', ''320007'']"
    unfolding sample_entries_def by code_simp
  have w: "list_all (list_all isspace) blank_entries"
    unfolding blank_entries_def by code_simp
  have n: "length (filter (\<lambda>p. \<not> list_all isspace p) sample_entries) = 2"
    using arg_cong [OF v, of length] by simp
  show ?thesis
    using blank_entries_are_discarded [OF s1 s2, of warm_state "\<lambda>i. outage_env" "[]"]
          blank_entries_are_discarded [OF b1 b2, of warm_state "\<lambda>i. outage_env" "[]"] v w n
    by simp
qed

subsection \<open>Calls under a schedule\<close>

text \<open>
  A call that has returned gives its result; one that has not takes a step first. A
  property of the system that every step of every call preserves therefore holds after any
  schedule and after the calls have been joined, with every call returned.
\<close>

lemma finish_call_done:
  "result_of (call_at th) = Some out \<Longrightarrow> finish_call st th = (out, st)"
  by (cases "call_at th") (simp_all add: finish_call.simps [of st th] result_of_def)

lemma finish_call_step:
  "finish_call st th = finish_call (fst (step_call st th)) (snd (step_call st th))"
proof (cases "result_of (call_at th)")
  case None
  then show ?thesis
    by (cases "call_at th")
       (simp_all add: finish_call.simps [of st th] result_of_def split: prod.splits)
next
  case (Some out)
  then have "step_call st th = (st, th)"
    by (cases "call_at th") (simp_all add: step_call_def result_of_def)
  then show ?thesis by simp
qed

lemma step_call_code [simp]: "call_code (snd (step_call st th)) = call_code th"
  and step_call_env [simp]: "call_env (snd (step_call st th)) = call_env th"
  by (cases "call_at th"; simp add: step_call_def Let_def split: option.splits)+


lemma run_induct:
  assumes "P sys" and "\<And>i sys. P sys \<Longrightarrow> P (step_at i sys)"
  shows "P (run sch sys)"
  using assms(1) by (induction sch arbitrary: sys) (simp_all add: assms(2))

lemma step_at_middle:
  "step_at (length pre) (st, pre @ th # post) = (fst (step_call st th), pre @ snd (step_call st th) # post)"
  by (simp add: step_at_def split: prod.splits)

lemma step_at_eq:
  "step_at i (st, ths) =
     (if i < length ths
      then (fst (step_call st (ths ! i)), ths[i := snd (step_call st (ths ! i))])
      else (st, ths))"
  by (simp add: step_at_def split: prod.splits)





lemma run_append: "run (a @ b) sys = run b (run a sys)"
  by (induction a arbitrary: sys) simp_all

lemma run_length: "length (snd (run sch sys)) = length (snd sys)"
proof (induction sch arbitrary: sys)
  case Nil
  then show ?case by simp
next
  case (Cons i sch)
  have "length (snd (step_at i sys)) = length (snd sys)"
    by (cases sys) (simp add: step_at_eq)
  then show ?case using Cons.IH [of "step_at i sys"] by simp
qed

lemma three_steps_return:
  "result_of (call_at (snd (step_call (fst (step_call (fst (step_call st th)) (snd (step_call st th))))
       (snd (step_call (fst (step_call st th)) (snd (step_call st th))))))) \<noteq> None"
  by (cases "call_at th")
     (simp_all add: step_call_def result_of_def Let_def split: option.splits)

lemma finish_call_three_steps:
  assumes "finish_call st th = (out, st')"
  shows "\<exists>th'. run [length pre, length pre, length pre] (st, pre @ th # post) = (st', pre @ th' # post)
               \<and> result_of (call_at th') = Some out"
proof -
  define st1 where "st1 = fst (step_call st th)"
  define th1 where "th1 = snd (step_call st th)"
  define st2 where "st2 = fst (step_call st1 th1)"
  define th2 where "th2 = snd (step_call st1 th1)"
  define st3 where "st3 = fst (step_call st2 th2)"
  define th3 where "th3 = snd (step_call st2 th2)"
  have r: "run [length pre, length pre, length pre] (st, pre @ th # post) = (st3, pre @ th3 # post)"
    by (simp add: step_at_middle st1_def th1_def st2_def th2_def st3_def th3_def)
  have "result_of (call_at th3) \<noteq> None"
    using three_steps_return [of st th] by (simp add: st1_def th1_def st2_def th2_def st3_def th3_def)
  then obtain o3 where o3: "result_of (call_at th3) = Some o3" by auto
  have "finish_call st th = finish_call st3 th3"
    using finish_call_step [of st th] finish_call_step [of st1 th1] finish_call_step [of st2 th2]
    by (simp add: st1_def th1_def st2_def th2_def st3_def th3_def)
  also have "\<dots> = (o3, st3)" using o3 by (rule finish_call_done)
  finally have "out = o3" "st' = st3" using assms by simp_all
  then show ?thesis using r o3 by blast
qed

subsection \<open>Isolation in a batch\<close>





text \<open>
  A step of a call for another code leaves the cache entry of this code alone, and what a
  call will return depends on the cache only through the entry of its own code.
\<close>

lemma cache_key_inj [simp]: "cache_key a = cache_key b \<longleftrightarrow> a = b"
  by (simp add: cache_key_def)


lemma finish_call_Hit: "call_at th = Hit d \<Longrightarrow> finish_call st th = (Inr d, st)"
  and finish_call_Stored: "call_at th = Stored r \<Longrightarrow> finish_call st th = (Inr r, st)"
  and finish_call_Faulted: "call_at th = Faulted e \<Longrightarrow> finish_call st th = (Inl e, st)"
  by (simp_all add: finish_call.simps [of st th])








lemma join_all_as_run:
  "join_all st ths = (outs, st')
   \<Longrightarrow> \<exists>ths'. run (concat (map (\<lambda>i. [i, i, i]) [length pre..<length pre + length ths])) (st, pre @ ths)
                 = (st', pre @ ths')
              \<and> list_all2 (\<lambda>th out. result_of (call_at th) = Some out) ths' outs"
proof (induction ths arbitrary: st pre outs st')
  case Nil
  then show ?case by simp
next
  case (Cons th ths)
  obtain out st1 where f: "finish_call st th = (out, st1)" by (cases "finish_call st th")
  obtain outs1 st2 where j: "join_all st1 ths = (outs1, st2)" by (cases "join_all st1 ths")
  from Cons.prems f j have eq: "outs = out # outs1" "st' = st2" by simp_all
  from finish_call_three_steps [OF f, of pre ths]
  obtain th' where th': "run [length pre, length pre, length pre] (st, pre @ th # ths) = (st1, pre @ th' # ths)"
      "result_of (call_at th') = Some out" by blast
  from Cons.IH [OF j, of "pre @ [th']"]
  obtain ths' where ths': "run (concat (map (\<lambda>i. [i, i, i]) [Suc (length pre)..<Suc (length pre) + length ths]))
                 (st1, (pre @ [th']) @ ths) = (st2, (pre @ [th']) @ ths')"
      "list_all2 (\<lambda>th out. result_of (call_at th) = Some out) ths' outs1" by auto
  have upt: "[length pre..<length pre + length (th # ths)]
               = length pre # [Suc (length pre)..<Suc (length pre) + length ths]"
  proof -
    have "[length pre..<length pre + Suc (length ths)]
            = length pre # [Suc (length pre)..<length pre + Suc (length ths)]"
      by (rule upt_conv_Cons) simp
    then show ?thesis by simp
  qed
  have "run (concat (map (\<lambda>i. [i, i, i]) [length pre..<length pre + length (th # ths)])) (st, pre @ th # ths)
          = (st', pre @ th' # ths')"
    unfolding upt using th'(1) ths'(1) eq
    by (simp only: list.map concat.simps run_append) simp
  moreover have "list_all2 (\<lambda>th out. result_of (call_at th) = Some out) (th' # ths') outs"
    using th'(2) ths'(2) eq by simp
  ultimately show ?case by blast
qed

lemma run_pool_as_run:
  assumes "run_pool st calls sch = (outs, st')"
  shows "\<exists>ths. run (sch @ completion (length calls)) (st, calls) = (st', ths)
              \<and> list_all2 (\<lambda>th out. result_of (call_at th) = Some out) ths outs"
proof -
  obtain st1 ths1 where r: "run sch (st, calls) = (st1, ths1)" by (cases "run sch (st, calls)")
  have len: "length ths1 = length calls" using run_length [of sch "(st, calls)"] r by simp
  have j: "join_all st1 ths1 = (outs, st')" using assms r by (simp add: run_pool_def)
  from join_all_as_run [OF j, of "[]"] len r show ?thesis
    by (simp add: run_append completion_def)
qed






subsection \<open>Concurrent callers of one fund\<close>

text \<open>
  Every step of every call preserves \<open>coalesce_inv\<close> when each call would miss the
  initial cache.
\<close>

lemma filter_update_count:
  "i < length xs \<Longrightarrow>
     length (filter P (xs[i := x])) + (if P (xs ! i) then 1 else 0)
       = length (filter P xs) + (if P x then 1 else 0)"
proof (induction xs arbitrary: i)
  case Nil
  then show ?case by simp
next
  case (Cons a xs)
  then show ?case by (cases i) auto
qed

lemma fetched_step: "fetched th \<Longrightarrow> fetched (snd (step_call st th))"
  by (cases "call_at th") (simp_all add: fetched_def step_call_def)

lemma coalesce_inv_step:
  assumes miss: "\<forall>i<length calls.
            get_cached (float_sub (call_env (calls ! i))) (cache st0) (cache_key c)
              (check_time (call_env (calls ! i))) = None"
      and inv: "coalesce_inv st0 c calls sys"
  shows "coalesce_inv st0 c calls (step_at i sys)"
proof -
  obtain st ths where sys: "sys = (st, ths)" by (cases sys)
  let ?n = "length calls"
  let ?key = "cache_key c"
  let ?fam = "\<lambda>k. fetch_and_merge c (call_env (calls ! k))"
  let ?ok = "\<lambda>ths k. case call_at (ths ! k) of
              Hit d \<Rightarrow> (\<exists>j<?n. call_at (ths ! j) = Stored d \<and> d = ?fam j)
            | Merged r \<Rightarrow> r = ?fam k \<and> executor_fault (call_env (calls ! k)) = None
            | Stored r \<Rightarrow> r = ?fam k \<and> executor_fault (call_env (calls ! k)) = None
            | Faulted e \<Rightarrow> executor_fault (call_env (calls ! k)) = Some e
            | _ \<Rightarrow> True"
  from inv sys have len: "length ths = ?n"
    and ids: "\<forall>k<?n. call_code (ths ! k) = c \<and> call_env (ths ! k) = call_env (calls ! k)"
    and log: "fetches st = fetches st0 @ replicate (length (filter fetched ths)) c"
    and cch: "cache st ?key = cache st0 ?key
         \<or> (\<exists>j<?n. call_at (ths ! j) = Stored (?fam j)
               \<and> cache st ?key = Some \<lparr> data = ?fam j, timestamp = store_time (call_env (calls ! j)) \<rparr>)"
    and sts: "\<forall>k<?n. ?ok ths k"
    by (simp_all add: coalesce_inv_def)
  show ?thesis
  proof (cases "i < length ths")
    case False
    then show ?thesis using inv sys by (simp add: step_at_eq)
  next
    case True
    define th where "th = ths ! i"
    define st1 where "st1 = fst (step_call st th)"
    define th1 where "th1 = snd (step_call st th)"
    define ths1 where "ths1 = ths[i := th1]"
    have step: "step_at i sys = (st1, ths1)"
      using True sys by (simp add: step_at_eq st1_def th1_def ths1_def th_def)
    have i: "i < ?n" using True len by simp
    have code: "call_code th = c" and env: "call_env th = call_env (calls ! i)"
      using ids i by (simp_all add: th_def)
    have len1: "length ths1 = ?n" by (simp add: ths1_def len)
    have ids1: "\<forall>k<?n. call_code (ths1 ! k) = c \<and> call_env (ths1 ! k) = call_env (calls ! k)"
      using ids len code env True by (auto simp: ths1_def th1_def nth_list_update)
    have other: "ths1 ! k = ths ! k" if "k \<noteq> i" for k
      using that by (simp add: ths1_def)
    have self: "ths1 ! i = th1" using True by (simp add: ths1_def)
    have keep: "call_at (ths1 ! k) = Stored r" if "call_at (ths ! k) = Stored r" "k < ?n" for k r
    proof (cases "k = i")
      case True
      then have "call_at th = Stored r" using that by (simp add: th_def)
      then have "th1 = th" by (simp add: th1_def step_call_def)
      then show ?thesis using True self that by (simp add: th_def)
    next
      case False
      then show ?thesis using that other by simp
    qed
    have cnt: "length (filter fetched ths1) + (if fetched th then 1 else 0)
                 = length (filter fetched ths) + (if fetched th1 then 1 else 0)"
      using filter_update_count [OF True, of fetched th1] by (simp add: ths1_def th_def)
    have sti: "?ok ths i" using sts i by simp
    have log1: "fetches st1 = fetches st0 @ replicate (length (filter fetched ths1)) c"
    proof (cases "call_at th")
      case Missed
      then have "fetches st1 = fetches st @ [c]" "fetched th1" "\<not> fetched th"
        by (simp_all add: st1_def th1_def step_call_def Let_def fetched_def code split: option.splits)
      then show ?thesis using cnt log by (simp add: replicate_append_same)
    next
      case Ready
      then have "fetches st1 = fetches st" "\<not> fetched th1" "\<not> fetched th"
        by (simp_all add: st1_def th1_def step_call_def Let_def fetched_def split: option.splits)
      then show ?thesis using cnt log by simp
    next
      case (Merged r)
      then have "fetches st1 = fetches st" "fetched th1" "fetched th"
        by (simp_all add: st1_def th1_def step_call_def Let_def fetched_def split: option.splits)
      then show ?thesis using cnt log by simp
    next
      case (Hit d)
      then have "fetches st1 = fetches st" "th1 = th"
        by (simp_all add: st1_def th1_def step_call_def)
      then show ?thesis using cnt log by simp
    next
      case (Stored r)
      then have "fetches st1 = fetches st" "th1 = th"
        by (simp_all add: st1_def th1_def step_call_def)
      then show ?thesis using cnt log by simp
    next
      case (Faulted e)
      then have "fetches st1 = fetches st" "th1 = th"
        by (simp_all add: st1_def th1_def step_call_def)
      then show ?thesis using cnt log by simp
    qed
    have cch1: "cache st1 ?key = cache st0 ?key
         \<or> (\<exists>j<?n. call_at (ths1 ! j) = Stored (?fam j)
               \<and> cache st1 ?key = Some \<lparr> data = ?fam j, timestamp = store_time (call_env (calls ! j)) \<rparr>)"
    proof (cases "\<exists>r. call_at th = Merged r")
      case True
      then obtain r where m: "call_at th = Merged r" by blast
      then have r: "r = ?fam i" using sti by (simp add: th_def)
      have "cache st1 ?key = Some \<lparr> data = r, timestamp = store_time (call_env (calls ! i)) \<rparr>"
        using m by (simp add: st1_def step_call_def set_cache_def code env)
      moreover have "call_at (ths1 ! i) = Stored r"
        using m self by (simp add: th1_def step_call_def)
      ultimately show ?thesis using r i by blast
    next
      case False
      then have "cache st1 = cache st"
        by (cases "call_at th") (simp_all add: st1_def step_call_def Let_def split: option.splits)
      then show ?thesis using cch keep by auto
    qed
    have sts1: "\<forall>k<?n. ?ok ths1 k"
    proof (intro allI impI)
      fix k assume k: "k < ?n"
      show "?ok ths1 k"
      proof (cases "k = i")
        case False
        then have eq: "ths1 ! k = ths ! k" by (rule other)
        have old: "?ok ths k" using sts k by simp
        show ?thesis
        proof (cases "call_at (ths ! k)")
          case (Hit d)
          with old obtain j where "j < ?n" "call_at (ths ! j) = Stored d" "d = ?fam j" by auto
          then have "\<exists>j<?n. call_at (ths1 ! j) = Stored d \<and> d = ?fam j"
            using keep by blast
          then show ?thesis using Hit eq by simp
        qed (use old eq in simp_all)
      next
        case True
        show ?thesis
        proof (cases "call_at th")
          case Ready
          show ?thesis
          proof (cases "get_cached (float_sub (call_env (calls ! i))) (cache st) ?key
                          (check_time (call_env (calls ! i)))")
            case None
            then show ?thesis
              using Ready True self by (simp add: th1_def step_call_def code env)
          next
            case (Some d)
            then have h: "call_at th1 = Hit d"
              using Ready by (simp add: th1_def step_call_def code env)
            have "cache st ?key \<noteq> cache st0 ?key"
              using Some miss i by (auto simp: get_cached_def)
            then obtain j where j: "j < ?n" "call_at (ths ! j) = Stored (?fam j)"
                "cache st ?key = Some \<lparr> data = ?fam j, timestamp = store_time (call_env (calls ! j)) \<rparr>"
              using cch by blast
            then have "d = ?fam j"
              using Some by (simp add: get_cached_def split: if_splits)
            then have "\<exists>j<?n. call_at (ths1 ! j) = Stored d \<and> d = ?fam j"
              using j keep by blast
            then show ?thesis using h True self by simp
          qed
        next
          case Missed
          then show ?thesis
            using True self by (simp add: th1_def step_call_def Let_def code env split: option.splits)
        next
          case (Merged r)
          then show ?thesis
            using True self sti by (simp add: th1_def step_call_def th_def)
        next
          case (Hit d)
          then have "th1 = th" by (simp add: th1_def step_call_def)
          moreover from sti Hit obtain j where "j < ?n" "call_at (ths ! j) = Stored d" "d = ?fam j"
            by (auto simp: th_def)
          then have "\<exists>j<?n. call_at (ths1 ! j) = Stored d \<and> d = ?fam j"
            using keep by blast
          ultimately show ?thesis using True self Hit by simp
        next
          case (Stored r)
          then have "th1 = th" by (simp add: th1_def step_call_def)
          then show ?thesis using True self sti Stored by (simp add: th_def)
        next
          case (Faulted e)
          then have "th1 = th" by (simp add: th1_def step_call_def)
          then show ?thesis using True self sti Faulted by (simp add: th_def)
        qed
      qed
    qed
    show ?thesis
      unfolding step coalesce_inv_def using len1 ids1 log1 cch1 sts1 by simp
  qed
qed

lemma filter_nonempty_count: "j < length xs \<Longrightarrow> P (xs ! j) \<Longrightarrow> 1 \<le> length (filter P xs)"
proof -
  assume "j < length xs" "P (xs ! j)"
  then have "xs ! j \<in> set (filter P xs)" by simp
  then have "filter P xs \<noteq> []" by (metis empty_iff list.set(1))
  then show ?thesis by (cases "filter P xs") simp_all
qed

text \<open>A concrete run of two callers whose cache checks both precede the first store.\<close>

lemma run_two: "run_pool empty_state two_calls [0, 1, 0, 1, 1, 0] =
   ([Inr (fetch_and_merge ''000216'' live_env), Inr (zero_result ''000216'' ''2024-01-02 10:00:00'')],
    \<lparr> cache = [cache_key ''000216'' \<mapsto> \<lparr> data = fetch_and_merge ''000216'' live_env, timestamp = 102 \<rparr>],
      fetches = [''000216'', ''000216''] \<rparr>)"
  by (simp add: run_pool_def step_at_def two_calls_def empty_state_def step_call_def get_cached_def
       live_env_def outage_env_def set_cache_def finish_call_Stored Let_def
       fetch_and_merge_def merge_defs zero_result_def
       fetch_tiantian_estimate_def fetch_eastmoney_nav_def fetch_eastmoney_detail_def)

text \<open>
  C2, as the claim states it, fails: nothing coalesces concurrent calls. Two calls for the
  same uncached fund whose cache checks both precede the first store each run the fetch
  stage, and each returns its own result, here two different records.
\<close>

theorem overlapping_calls_fetch_twice:
  "fetches (snd (run_pool empty_state two_calls [0, 1, 0, 1, 1, 0])) = [''000216'', ''000216'']
   \<and> fst (run_pool empty_state two_calls [0, 1, 0, 1, 1, 0]) ! 0
       \<noteq> fst (run_pool empty_state two_calls [0, 1, 0, 1, 1, 0]) ! 1"
  unfolding run_two
  by (simp add: fetch_and_merge_def merge_defs zero_result_def live_env_def
        fetch_tiantian_estimate_def fetch_eastmoney_nav_def fetch_eastmoney_detail_def
        float_or_0_def get_or_def)

text \<open>
  C2, amended. Let calls for one fund code run concurrently from a state in which each of
  them would miss the cache, under any schedule, and let \<open>ths\<close> be the calls once the
  pool is joined. Every call has returned: by a cache hit, by storing, or by the exception of
  its own fetch stage. The fetch stage ran exactly once for each call that did not return by
  a hit, that is for each call whose cache check found no fresh entry (at least one call, at
  most all of them): the callers are not coalesced. A call that stored returns the result of
  its own fetch and merge; a call that raised returns the exception of its own fetch stage,
  having merged nothing; a call that hit returns the record that another call merged and
  stored. The count also holds at every point of the run: the fetch log has one entry per
  call that has entered the fetch stage so far.
\<close>

theorem concurrent_misses_each_fetch:
  assumes ne: "calls \<noteq> []"
      and ready: "\<forall>th\<in>set calls. call_code th = c \<and> call_at th = Ready
                     \<and> get_cached (float_sub (call_env th)) (cache st) (cache_key c)
                          (check_time (call_env th)) = None"
      and pool: "run_pool st calls sch = (outs, st')"
      and final: "ths = snd (run (sch @ completion (length calls)) (st, calls))"
  shows "run (sch @ completion (length calls)) (st, calls) = (st', ths)
       \<and> length ths = length calls \<and> length outs = length calls
       \<and> fetches st' = fetches st @ replicate (length (filter fetched ths)) c
       \<and> 1 \<le> length (filter fetched ths) \<and> length (filter fetched ths) \<le> length calls
       \<and> (\<forall>pre. fetches (fst (run pre (st, calls)))
                  = fetches st @ replicate (length (filter fetched (snd (run pre (st, calls))))) c)
       \<and> (\<forall>i<length calls.
             case call_at (ths ! i) of
               Hit d \<Rightarrow> outs ! i = Inr d
                        \<and> (\<exists>j<length calls. call_at (ths ! j) = Stored d
                              \<and> d = fetch_and_merge c (call_env (calls ! j)))
             | Stored r \<Rightarrow> outs ! i = Inr r
                           \<and> r = fetch_and_merge c (call_env (calls ! i))
                           \<and> executor_fault (call_env (calls ! i)) = None
             | Faulted e \<Rightarrow> outs ! i = Inl e
                            \<and> executor_fault (call_env (calls ! i)) = Some e
             | _ \<Rightarrow> False)"
proof -
  let ?n = "length calls"
  let ?fam = "\<lambda>k. fetch_and_merge c (call_env (calls ! k))"
  obtain ths0 where r: "run (sch @ completion ?n) (st, calls) = (st', ths0)"
      and res: "list_all2 (\<lambda>th out. result_of (call_at th) = Some out) ths0 outs"
    using run_pool_as_run [OF pool] by blast
  have ths: "ths = ths0" using final r by simp
  have miss: "\<forall>i<?n. get_cached (float_sub (call_env (calls ! i))) (cache st) (cache_key c)
                        (check_time (call_env (calls ! i))) = None"
    using ready by simp
  have nofetch: "filter fetched calls = []"
    using ready by (simp add: filter_empty_conv fetched_def)
  have init: "coalesce_inv st c calls (st, calls)"
    using ready nofetch by (simp add: coalesce_inv_def)
  have "coalesce_inv st c calls (run (sch @ completion ?n) (st, calls))"
    by (rule run_induct [of "coalesce_inv st c calls", OF init coalesce_inv_step [OF miss]])
  then have inv: "coalesce_inv st c calls (st', ths)" using r ths by simp
  from inv have len: "length ths = ?n"
    and log: "fetches st' = fetches st @ replicate (length (filter fetched ths)) c"
    and sts: "\<forall>k<?n.
            case call_at (ths ! k) of
              Hit d \<Rightarrow> (\<exists>j<?n. call_at (ths ! j) = Stored d \<and> d = ?fam j)
            | Merged r \<Rightarrow> r = ?fam k \<and> executor_fault (call_env (calls ! k)) = None
            | Stored r \<Rightarrow> r = ?fam k \<and> executor_fault (call_env (calls ! k)) = None
            | Faulted e \<Rightarrow> executor_fault (call_env (calls ! k)) = Some e
            | _ \<Rightarrow> True"
    by (simp_all add: coalesce_inv_def)
  have len_outs: "length outs = ?n"
    using res len ths by (auto dest: list_all2_lengthD)
  have fin: "result_of (call_at (ths ! i)) = Some (outs ! i)" if "i < ?n" for i
    using list_all2_nthD [OF res, of i] that len ths by simp
  have each: "case call_at (ths ! i) of
               Hit d \<Rightarrow> outs ! i = Inr d \<and> (\<exists>j<?n. call_at (ths ! j) = Stored d \<and> d = ?fam j)
             | Stored r \<Rightarrow> outs ! i = Inr r \<and> r = ?fam i
                           \<and> executor_fault (call_env (calls ! i)) = None
             | Faulted e \<Rightarrow> outs ! i = Inl e \<and> executor_fault (call_env (calls ! i)) = Some e
             | _ \<Rightarrow> False" if i: "i < ?n" for i
    using fin [OF i] sts [rule_format, OF i]
    by (cases "call_at (ths ! i)") (simp_all add: result_of_def)
  have upper: "length (filter fetched ths) \<le> ?n"
    using len length_filter_le [of fetched ths] by simp
  have lower: "1 \<le> length (filter fetched ths)"
  proof -
    have 0: "0 < ?n" using ne by simp
    show ?thesis
    proof (cases "call_at (ths ! 0)")
      case (Hit d)
      with each [OF 0] obtain j where "j < ?n" "call_at (ths ! j) = Stored d" by auto
      then have "j < length ths" "fetched (ths ! j)" using len by (simp_all add: fetched_def)
      then show ?thesis by (rule filter_nonempty_count)
    next
      case (Stored r)
      then have "0 < length ths" "fetched (ths ! 0)" using 0 len by (simp_all add: fetched_def)
      then show ?thesis by (rule filter_nonempty_count)
    next
      case (Faulted e)
      then have "0 < length ths" "fetched (ths ! 0)" using 0 len by (simp_all add: fetched_def)
      then show ?thesis by (rule filter_nonempty_count)
    qed (use each [OF 0] in simp_all)
  qed
  have prefix: "fetches (fst (run pre (st, calls)))
                  = fetches st @ replicate (length (filter fetched (snd (run pre (st, calls))))) c" for pre
  proof -
    have "coalesce_inv st c calls (run pre (st, calls))"
      by (rule run_induct [of "coalesce_inv st c calls", OF init coalesce_inv_step [OF miss]])
    then show ?thesis
      by (cases "run pre (st, calls)") (simp add: coalesce_inv_def)
  qed
  show ?thesis
    using r ths len len_outs log lower upper each prefix by blast
qed

text \<open>A concrete run in which the second caller arrives after the first has stored.\<close>

lemma run_serial: "run_pool empty_state serial_calls [0, 0, 0, 1] =
   ([Inr (fetch_and_merge ''000216'' live_env), Inr (fetch_and_merge ''000216'' live_env)],
    \<lparr> cache = [cache_key ''000216'' \<mapsto> \<lparr> data = fetch_and_merge ''000216'' live_env, timestamp = 102 \<rparr>],
      fetches = [''000216''] \<rparr>)"
  by (simp add: run_pool_def step_at_def serial_calls_def empty_state_def step_call_def get_cached_def
       live_env_def late_env_def outage_env_def set_cache_def finish_call_Stored finish_call_Hit Let_def
       CACHE_TTL_def sample_sub_def)

lemma run_serial_states:
  "snd (run ([0, 0, 0, 1] @ completion (length serial_calls)) (empty_state, serial_calls))
     = serial_returned"
  by (simp add: completion_def step_at_def serial_calls_def serial_returned_def empty_state_def
       step_call_def get_cached_def live_env_def late_env_def outage_env_def set_cache_def Let_def
       CACHE_TTL_def sample_sub_def upt_rec)

theorem concurrent_misses_witness:
  "run ([0, 0, 0, 1] @ completion (length serial_calls)) (empty_state, serial_calls)
     = (snd (run_pool empty_state serial_calls [0, 0, 0, 1]), serial_returned)
   \<and> fetches (snd (run_pool empty_state serial_calls [0, 0, 0, 1]))
       = fetches empty_state @ replicate (length (filter fetched serial_returned)) ''000216''
   \<and> length (filter fetched serial_returned) = 1
   \<and> fst (run_pool empty_state serial_calls [0, 0, 0, 1]) ! 0
       = Inr (fetch_and_merge ''000216'' (call_env (serial_calls ! 0)))
   \<and> fst (run_pool empty_state serial_calls [0, 0, 0, 1]) ! 1
       = Inr (fetch_and_merge ''000216'' (call_env (serial_calls ! 0)))"
proof -
  have ne: "serial_calls \<noteq> []" by (simp add: serial_calls_def)
  have ready: "\<forall>th\<in>set serial_calls. call_code th = ''000216'' \<and> call_at th = Ready
       \<and> get_cached (float_sub (call_env th)) (cache empty_state) (cache_key ''000216'')
            (check_time (call_env th)) = None"
    by (simp add: serial_calls_def empty_state_def get_cached_def)
  have cnt: "length (filter fetched serial_returned) = 1"
    by (simp add: serial_returned_def fetched_def)
  show ?thesis
    using concurrent_misses_each_fetch [OF ne ready run_serial run_serial_states [symmetric]]
    unfolding run_serial by (simp add: cnt) (simp add: serial_calls_def)
qed

end
